theory Spec2Isabelle
  imports Complex_Main
begin

unbundle bit_operations_syntax

section \<open>Conventions of the embedding\<close>

text \<open>
  The two generator scripts \<^verbatim>\<open>tools/generate_menu_icons.py\<close> and
  \<^verbatim>\<open>tools/generate_circular_icons.py\<close> are embedded function by function.
  Python's unbounded \<^verbatim>\<open>int\<close> is \<^typ>\<open>int\<close>. Python's \<^verbatim>\<open>float\<close> is
  modelled by \<^typ>\<open>real\<close>: decimal literals denote the exact rational they spell and
  arithmetic is exact, so the rounding of IEEE doubles, NaN and infinities are outside the
  model. Exceptions are values of \<open>py_error\<close> in the left summand of a result.
\<close>

datatype py_error = IndexError

text \<open>\<^verbatim>\<open>int(v)\<close> on a float truncates towards zero.\<close>

definition py_int :: "real \<Rightarrow> int" where
  "py_int v = (if 0 \<le> v then \<lfloor>v\<rfloor> else \<lceil>v\<rceil>)"

text \<open>
  Subscripting a list of length \<open>n\<close> with \<open>i\<close>: the position that is read or written,
  or nothing when Python raises \<^verbatim>\<open>IndexError\<close>. An index from \<open>-n\<close> to \<open>-1\<close> counts
  from the end.
\<close>

definition py_index :: "nat \<Rightarrow> int \<Rightarrow> nat option" where
  "py_index n i =
     (if 0 \<le> i \<and> i < int n then Some (nat i)
      else if - int n \<le> i \<and> i < 0 then Some (nat (int n + i))
      else None)"

definition py_getitem :: "'a list \<Rightarrow> int \<Rightarrow> py_error + 'a" where
  "py_getitem xs i =
     (case py_index (length xs) i of None \<Rightarrow> Inl IndexError | Some j \<Rightarrow> Inr (xs ! j))"

definition py_setitem :: "'a list \<Rightarrow> int \<Rightarrow> 'a \<Rightarrow> py_error + 'a list" where
  "py_setitem xs i v =
     (case py_index (length xs) i of None \<Rightarrow> Inl IndexError | Some j \<Rightarrow> Inr (xs[j := v]))"

section \<open>Color model (generate_menu_icons.py)\<close>

record Color =
  r :: int
  g :: int
  b :: int

definition Color_clamp :: "Color \<Rightarrow> Color" where
  "Color_clamp c =
     \<lparr>r = max 0 (min 255 (r c)), g = max 0 (min 255 (g c)), b = max 0 (min 255 (b c))\<rparr>"

definition to_rgb565 :: "Color \<Rightarrow> int" where
  "to_rgb565 c0 =
     (let c = Color_clamp c0;
          r5 = (r c * 31 + 127) div 255;
          g6 = (g c * 63 + 127) div 255;
          b5 = (b c * 31 + 127) div 255
      in push_bit 11 r5 OR push_bit 5 g6 OR b5)"

definition lerp :: "Color \<Rightarrow> Color \<Rightarrow> real \<Rightarrow> Color" where
  "lerp c other t0 =
     (let t = max 0 (min 1 t0)
      in \<lparr>r = py_int (of_int (r c) + of_int (r other - r c) * t),
          g = py_int (of_int (g c) + of_int (g other - g c) * t),
          b = py_int (of_int (b c) + of_int (b other - b c) * t)\<rparr>)"

definition blend_over :: "Color \<Rightarrow> Color \<Rightarrow> real \<Rightarrow> Color" where
  "blend_over dst src alpha =
     (let a = max 0 (min 1 alpha); inv = 1 - a
      in \<lparr>r = py_int (of_int (r dst) * inv + of_int (r src) * a),
          g = py_int (of_int (g dst) * inv + of_int (g src) * a),
          b = py_int (of_int (b dst) * inv + of_int (b src) * a)\<rparr>)"

section \<open>Canvas (generate_menu_icons.py)\<close>

record Canvas =
  w :: int
  h :: int
  bg :: Color
  px :: "Color list"

text \<open>
  \<^verbatim>\<open>Canvas.__init__\<close> stores its arguments and fills \<^verbatim>\<open>px\<close> with
  \<^verbatim>\<open>range(w * h)\<close> copies of the background; an empty range for a product that is
  not positive. It has no check of its own and no statement that raises.
\<close>

definition Canvas_init :: "int \<Rightarrow> int \<Rightarrow> Color \<Rightarrow> py_error + Canvas" where
  "Canvas_init wd ht c = Inr \<lparr>w = wd, h = ht, bg = c, px = replicate (nat (wd * ht)) c\<rparr>"

definition idx :: "Canvas \<Rightarrow> int \<Rightarrow> int \<Rightarrow> int" where
  "idx cv x y = y * w cv + x"

definition in_bounds :: "Canvas \<Rightarrow> int \<Rightarrow> int \<Rightarrow> bool" where
  "in_bounds cv x y \<longleftrightarrow> 0 \<le> x \<and> x < w cv \<and> 0 \<le> y \<and> y < h cv"

definition Canvas_set :: "Canvas \<Rightarrow> int \<Rightarrow> int \<Rightarrow> Color \<Rightarrow> py_error + Canvas" where
  "Canvas_set cv x y c =
     (if in_bounds cv x y then
        (case py_setitem (px cv) (idx cv x y) c of
           Inl e \<Rightarrow> Inl e
         | Inr p \<Rightarrow> Inr (cv\<lparr>px := p\<rparr>))
      else Inr cv)"

definition Canvas_get :: "Canvas \<Rightarrow> int \<Rightarrow> int \<Rightarrow> py_error + Color" where
  "Canvas_get cv x y =
     (if in_bounds cv x y then py_getitem (px cv) (idx cv x y) else Inr (bg cv))"

definition Canvas_seta :: "Canvas \<Rightarrow> int \<Rightarrow> int \<Rightarrow> Color \<Rightarrow> real \<Rightarrow> py_error + Canvas" where
  "Canvas_seta cv x y c a =
     (if in_bounds cv x y then
        (case py_getitem (px cv) (idx cv x y) of
           Inl e \<Rightarrow> Inl e
         | Inr old \<Rightarrow>
             (case py_setitem (px cv) (idx cv x y) (blend_over old c a) of
                Inl e \<Rightarrow> Inl e
              | Inr p \<Rightarrow> Inr (cv\<lparr>px := p\<rparr>)))
      else Inr cv)"

text \<open>A sequence of point writes, run in order; the first exception ends the run.\<close>

datatype draw_op = Set int int Color | SetA int int Color real

fun op_color :: "draw_op \<Rightarrow> Color" where
  "op_color (Set x y c) = c"
| "op_color (SetA x y c a) = c"

fun draw :: "Canvas \<Rightarrow> draw_op \<Rightarrow> py_error + Canvas" where
  "draw cv (Set x y c) = Canvas_set cv x y c"
| "draw cv (SetA x y c a) = Canvas_seta cv x y c a"

fun draw_all :: "Canvas \<Rightarrow> draw_op list \<Rightarrow> py_error + Canvas" where
  "draw_all cv [] = Inr cv"
| "draw_all cv (d # ds) = (case draw cv d of Inl e \<Rightarrow> Inl e | Inr cv' \<Rightarrow> draw_all cv' ds)"

text \<open>Channels within the 8-bit range.\<close>

definition color_ok :: "Color \<Rightarrow> bool" where
  "color_ok c \<longleftrightarrow> 0 \<le> r c \<and> r c \<le> 255 \<and> 0 \<le> g c \<and> g c \<le> 255 \<and> 0 \<le> b c \<and> b c \<le> 255"

text \<open>The shape every canvas has after construction: one stored pixel per cell.\<close>

definition canvas_wf :: "Canvas \<Rightarrow> bool" where
  "canvas_wf cv \<longleftrightarrow> length (px cv) = nat (w cv * h cv)"

section \<open>RGB565 utilities (generate_circular_icons.py)\<close>

definition rgb_to_565 :: "int \<Rightarrow> int \<Rightarrow> int \<Rightarrow> int" where
  "rgb_to_565 rv gv bv =
     push_bit 8 (rv AND 0xF8) OR push_bit 3 (gv AND 0xFC) OR drop_bit 3 bv"

definition rgb565_to_rgb :: "int \<Rightarrow> int \<times> int \<times> int" where
  "rgb565_to_rgb color =
     (push_bit 3 (drop_bit 11 color AND 0x1F),
      push_bit 2 (drop_bit 5 color AND 0x3F),
      push_bit 3 (color AND 0x1F))"

text \<open>The three fields of a packed colour, as \<^verbatim>\<open>rgb565_to_rgb\<close> reads them.\<close>

definition field_r :: "int \<Rightarrow> int" where "field_r color = drop_bit 11 color AND 0x1F"
definition field_g :: "int \<Rightarrow> int" where "field_g color = drop_bit 5 color AND 0x3F"
definition field_b :: "int \<Rightarrow> int" where "field_b color = color AND 0x1F"


section \<open>Anti-aliasing sampler and blending (generate_circular_icons.py)\<close>

definition ICON_SIZE :: int where "ICON_SIZE = 42"

definition AA_SAMPLES :: nat where "AA_SAMPLES = 4"

definition blend_rgb :: "int \<times> int \<times> int \<Rightarrow> int \<times> int \<times> int \<Rightarrow> real \<Rightarrow> int \<times> int \<times> int" where
  "blend_rgb fg bgc alpha =
     (case fg of (f0, f1, f2) \<Rightarrow> case bgc of (b0, b1, b2) \<Rightarrow>
        (py_int (of_int f0 * alpha + of_int b0 * (1 - alpha)),
         py_int (of_int f1 * alpha + of_int b1 * (1 - alpha)),
         py_int (of_int f2 * alpha + of_int b2 * (1 - alpha))))"

definition blend_565 :: "int \<Rightarrow> int \<Rightarrow> real \<Rightarrow> int" where
  "blend_565 fg bgc alpha =
     (case blend_rgb (rgb565_to_rgb fg) (rgb565_to_rgb bgc) alpha of
        (rv, gv, bv) \<Rightarrow> rgb_to_565 rv gv bv)"

definition distance :: "real \<Rightarrow> real \<Rightarrow> real \<Rightarrow> real \<Rightarrow> real" where
  "distance x1 y1 x2 y2 = sqrt ((x2 - x1)\<^sup>2 + (y2 - y1)\<^sup>2)"

definition clamp :: "real \<Rightarrow> real \<Rightarrow> real \<Rightarrow> real" where
  "clamp val min_val max_val = max min_val (min max_val val)"

text \<open>Every call in the script leaves the two bounds at their defaults 0.0 and 1.0.\<close>

abbreviation clamp01 :: "real \<Rightarrow> real" where
  "clamp01 val \<equiv> clamp val 0 1"

text \<open>
  The edge policy the specification states for the filled circle and asks of every other
  feature: coverage 1 up to half a unit inside the nominal edge, 0 from half a unit
  outside it, and linear in between. The first argument is the distance of the nominal
  edge from the feature's centre, the second the distance of the point.
\<close>

definition half_pixel_ramp :: "real \<Rightarrow> real \<Rightarrow> real" where
  "half_pixel_ramp edge d =
     (if d \<le> edge - 0.5 then 1 else if d \<ge> edge + 0.5 then 0 else edge + 0.5 - d)"

text \<open>
  \<^verbatim>\<open>sample_pixel_aa\<close>: the two nested \<^verbatim>\<open>for\<close> loops over \<^verbatim>\<open>range(AA_SAMPLES)\<close>
  add one sample after the other to \<^verbatim>\<open>total\<close>.
\<close>

definition sample_pixel_aa :: "int \<Rightarrow> int \<Rightarrow> int \<Rightarrow> (real \<Rightarrow> real \<Rightarrow> real) \<Rightarrow> real" where
  "sample_pixel_aa x y sz shape_func =
     (let step = 1 / real AA_SAMPLES;
          offset = step / 2;
          total =
            fold (\<lambda>sy tot.
                fold (\<lambda>sx tot'.
                    tot' + shape_func (of_int x + offset + real sx * step)
                                      (of_int y + offset + real sy * step))
                  [0..<AA_SAMPLES] tot)
              [0..<AA_SAMPLES] 0
      in total / real (AA_SAMPLES * AA_SAMPLES))"

section \<open>Circular background\<close>

definition circle_coverage :: "int \<Rightarrow> real \<Rightarrow> real \<Rightarrow> real" where
  "circle_coverage sz x y =
     (let cx = of_int sz / 2 - 0.5;
          cy = cx;
          radius = of_int sz / 2 - 0.5;
          dist = distance x y cx cy
      in if dist \<le> radius - 0.5 then 1
         else if dist \<ge> radius + 0.5 then 0
         else clamp01 (radius + 0.5 - dist))"

definition generate_circle_background :: "int \<Rightarrow> int \<Rightarrow> int \<Rightarrow> int list" where
  "generate_circle_background sz color transparent =
     concat (map (\<lambda>y. map (\<lambda>x.
         (let coverage = sample_pixel_aa (int x) (int y) sz (circle_coverage sz)
          in if coverage > 0.01 then blend_565 color transparent coverage else transparent))
       [0..<nat sz]) [0..<nat sz])"

section \<open>Compositing a symbol over the pixel list\<close>

text \<open>
  Every \<^verbatim>\<open>draw_*_symbol\<close> ends in the same two loops over \<^verbatim>\<open>range(size)\<close>: sample
  the symbol's coverage function at the pixel and, when the coverage exceeds 0.01,
  replace \<^verbatim>\<open>pixels[y * size + x]\<close> by the foreground blended over it with alpha
  \<^verbatim>\<open>coverage * opacity\<close>. The list is updated in place; here it is passed along, and
  a subscript out of range ends the pass with the exception.
\<close>

definition composite_pixel ::
  "(real \<Rightarrow> real \<Rightarrow> real) \<Rightarrow> real \<Rightarrow> int \<Rightarrow> int \<Rightarrow> nat \<times> nat \<Rightarrow> py_error + int list \<Rightarrow> py_error + int list" where
  "composite_pixel cov opacity sz fg_color yx acc =
     (case acc of
        Inl e \<Rightarrow> Inl e
      | Inr pixels \<Rightarrow>
          (case yx of (y, x) \<Rightarrow>
            (let coverage = sample_pixel_aa (int x) (int y) sz cov
             in if coverage > 0.01 then
                  (let i = int y * sz + int x
                   in case py_getitem pixels i of
                        Inl e \<Rightarrow> Inl e
                      | Inr old \<Rightarrow> py_setitem pixels i (blend_565 fg_color old (coverage * opacity)))
                else Inr pixels)))"

definition composite_symbol ::
  "(real \<Rightarrow> real \<Rightarrow> real) \<Rightarrow> real \<Rightarrow> int list \<Rightarrow> int \<Rightarrow> int \<Rightarrow> py_error + int list" where
  "composite_symbol cov opacity pixels sz fg_color =
     fold (composite_pixel cov opacity sz fg_color)
       (concat (map (\<lambda>y. map (\<lambda>x. (y, x)) [0..<nat sz]) [0..<nat sz]))
       (Inr pixels)"

text \<open>
  The value one step of that pass leaves at its cell, given the value it found there, and
  the position of the cell \<open>(y, x)\<close> in a row-major list of rows of length \<open>n\<close>.
\<close>

definition new_pixel :: "(real \<Rightarrow> real \<Rightarrow> real) \<Rightarrow> real \<Rightarrow> int \<Rightarrow> int \<Rightarrow> nat \<times> nat \<Rightarrow> int \<Rightarrow> int" where
  "new_pixel cov opacity sz fg_color yx old =
     (let coverage = sample_pixel_aa (int (snd yx)) (int (fst yx)) sz cov
      in if coverage > 0.01 then blend_565 fg_color old (coverage * opacity) else old)"

definition cell :: "nat \<Rightarrow> nat \<times> nat \<Rightarrow> nat" where
  "cell n yx = fst yx * n + snd yx"

section \<open>Symbol coverage functions\<close>

text \<open>\<^verbatim>\<open>math.atan2(y, x)\<close>, with values in the interval from \<open>-\<pi>\<close> (excluded) to \<open>\<pi>\<close>.\<close>

definition py_atan2 :: "real \<Rightarrow> real \<Rightarrow> real" where
  "py_atan2 y x =
     (if 0 < x then arctan (y / x)
      else if x < 0 then (if 0 \<le> y then arctan (y / x) + pi else arctan (y / x) - pi)
      else if 0 < y then pi / 2
      else if y < 0 then - pi / 2
      else 0)"

text \<open>
  \<^verbatim>\<open>a % m\<close> on floats, for a positive modulus: the result has the sign of \<open>m\<close>.
  This is the exact remainder; the code's doubles round it, so a statement that needs the
  exact period (such as equality of the results for an angle and that angle plus a full
  turn) is not carried over from this definition to the code.
\<close>

definition py_fmod :: "real \<Rightarrow> real \<Rightarrow> real" where
  "py_fmod a m = a - m * of_int \<lfloor>a / m\<rfloor>"

subsection \<open>Gear\<close>

definition gear_outer_r :: "int \<Rightarrow> real" where
  "gear_outer_r sz = of_int sz / 2 - 7.5"

definition gear_tooth_angle :: real where
  "gear_tooth_angle = (2 * pi) / 8"

definition gear_normalized_angle :: "real \<Rightarrow> real" where
  "gear_normalized_angle angle =
     py_fmod (py_fmod angle gear_tooth_angle + gear_tooth_angle) gear_tooth_angle"

text \<open>
  The part of \<^verbatim>\<open>gear_coverage\<close> that follows \<^verbatim>\<open>angle = math.atan2(y - cy, x - cx)\<close>,
  as a function of the distance \<open>distv\<close> (the source's \<^verbatim>\<open>dist\<close>) and of that angle.
\<close>

definition gear_body :: "int \<Rightarrow> real \<Rightarrow> real \<Rightarrow> real" where
  "gear_body sz distv angle =
     (let outer_r = gear_outer_r sz;
          inner_r = outer_r * 0.6;
          tooth_width = 0.35;
          tooth_height = 3.5;
          tooth_angle = gear_tooth_angle;
          normalized_angle = gear_normalized_angle angle;
          center_of_tooth = tooth_angle / 2;
          dist_from_center = \<bar>normalized_angle - center_of_tooth\<bar>;
          on_tooth = (dist_from_center < tooth_width * tooth_angle / 2);
          effective_outer = (if on_tooth then outer_r + tooth_height else outer_r);
          tooth_edge_factor =
            (if on_tooth then clamp01 ((tooth_width * tooth_angle / 2 - dist_from_center) * 15)
             else 1)
      in if distv \<ge> inner_r - 0.5 \<and> distv \<le> effective_outer + 0.5 then
           (let inner_factor = (if distv < inner_r + 0.5 then clamp01 (distv - inner_r + 0.5) else 1);
                outer_factor =
                  (if distv > effective_outer - 0.5 then clamp01 (effective_outer + 0.5 - distv)
                   else 1)
            in inner_factor * outer_factor * tooth_edge_factor)
         else 0)"

definition gear_coverage :: "int \<Rightarrow> real \<Rightarrow> real \<Rightarrow> real" where
  "gear_coverage sz x y =
     (let cx = of_int sz / 2 - 0.5;
          cy = cx;
          hole_r = gear_outer_r sz * 0.28;
          dist = distance x y cx cy
      in if dist \<le> hole_r - 0.5 then 0
         else if dist < hole_r + 0.5 then clamp01 (dist - hole_r + 0.5)
         else gear_body sz dist (py_atan2 (y - cy) (x - cx)))"

subsection \<open>Target\<close>

definition target_coverage :: "int \<Rightarrow> real \<Rightarrow> real \<Rightarrow> real" where
  "target_coverage sz x y =
     (let cx = of_int sz / 2 - 0.5;
          cy = cx;
          outer_r = of_int sz / 2 - 8;
          inner_r = outer_r * 0.42;
          ring_width = 2;
          center_r = 2.5;
          crosshair_width = 1.8;
          dist = distance x y cx cy;
          outer_dist = \<bar>dist - outer_r\<bar>;
          cov1 = (if outer_dist < ring_width
                  then max 0 (clamp01 (1 - outer_dist / (ring_width * 0.5))) else 0);
          inner_dist = \<bar>dist - inner_r\<bar>;
          cov2 = (if inner_dist < ring_width * 0.7
                  then max cov1 (clamp01 (1 - inner_dist / (ring_width * 0.35))) else cov1);
          cov3 = (if dist < center_r
                  then max cov2 (clamp01 (1 - dist / center_r * 0.7)) else cov2);
          gap_inner = inner_r + ring_width + 1;
          gap_outer = outer_r - ring_width - 1
      in if gap_inner < dist \<and> dist < gap_outer then
           (let x_dist = \<bar>x - cx\<bar>;
                cov4 = (if x_dist < crosshair_width
                        then max cov3 (clamp01 (1 - x_dist / crosshair_width)) else cov3);
                y_dist = \<bar>y - cy\<bar>
            in if y_dist < crosshair_width
               then max cov4 (clamp01 (1 - y_dist / crosshair_width)) else cov4)
         else cov3)"

subsection \<open>Play triangle\<close>

definition sign :: "real \<Rightarrow> real \<Rightarrow> real \<Rightarrow> real \<Rightarrow> real \<Rightarrow> real \<Rightarrow> real" where
  "sign p1x p1y p2x p2y p3x p3y = (p1x - p3x) * (p2y - p3y) - (p2x - p3x) * (p1y - p3y)"

definition point_to_line_dist :: "real \<Rightarrow> real \<Rightarrow> real \<Rightarrow> real \<Rightarrow> real \<Rightarrow> real \<Rightarrow> real" where
  "point_to_line_dist ptx pty x1 y1 x2 y2 =
     (let dx = x2 - x1;
          dy = y2 - y1;
          len = sqrt (dx * dx + dy * dy)
      in if len < 0.001 then distance ptx pty x1 y1
         else \<bar>dy * ptx - dx * pty + x2 * y1 - y2 * x1\<bar> / len)"

definition point_in_triangle ::
  "real \<Rightarrow> real \<Rightarrow> real \<Rightarrow> real \<Rightarrow> real \<Rightarrow> real \<Rightarrow> real \<Rightarrow> real \<Rightarrow> real" where
  "point_in_triangle ptx pty x1 y1 x2 y2 x3 y3 =
     (let d1 = sign ptx pty x1 y1 x2 y2;
          d2 = sign ptx pty x2 y2 x3 y3;
          d3 = sign ptx pty x3 y3 x1 y1;
          has_neg = (d1 < 0 \<or> d2 < 0 \<or> d3 < 0);
          has_pos = (d1 > 0 \<or> d2 > 0 \<or> d3 > 0);
          inside = (\<not> (has_neg \<and> has_pos))
      in if inside then
           (let d_to_edge =
                  min (point_to_line_dist ptx pty x1 y1 x2 y2)
                    (min (point_to_line_dist ptx pty x2 y2 x3 y3)
                         (point_to_line_dist ptx pty x3 y3 x1 y1))
            in clamp01 (d_to_edge + 0.5))
         else 0)"

definition play_coverage :: "int \<Rightarrow> real \<Rightarrow> real \<Rightarrow> real" where
  "play_coverage sz x y =
     (let cx = of_int sz / 2 - 0.5;
          cy = cx;
          offset = 1.5;
          scale = 0.42;
          left_x = cx - of_int sz * scale * 0.35 + offset;
          right_x = cx + of_int sz * scale * 0.45 + offset;
          top_y = cy - of_int sz * scale * 0.4;
          bottom_y = cy + of_int sz * scale * 0.4
      in point_in_triangle x y left_x top_y left_x bottom_y right_x cy)"

subsection \<open>Terminal prompt\<close>

definition terminal_coverage :: "int \<Rightarrow> real \<Rightarrow> real \<Rightarrow> real" where
  "terminal_coverage sz x y =
     (let cx = of_int sz / 2 - 0.5;
          cy = cx;
          line_width = 2.2;
          chevron_size = 6.5;
          chevron_x = cx - 6;
          chevron_y = cy - 1;
          underscore_y = cy + 6;
          underscore_x = cx + 1;
          underscore_len = 9;
          cov1 = (if y \<ge> chevron_y - chevron_size \<and> y \<le> chevron_y then
                    (let expected_x = chevron_x + (chevron_y - y);
                         dist_to_line = \<bar>x - expected_x\<bar>
                     in if dist_to_line < line_width
                        then max 0 (clamp01 (1 - dist_to_line / line_width)) else 0)
                  else 0);
          cov2 = (if y \<ge> chevron_y \<and> y \<le> chevron_y + chevron_size then
                    (let expected_x = chevron_x + (y - chevron_y);
                         dist_to_line = \<bar>x - expected_x\<bar>
                     in if dist_to_line < line_width
                        then max cov1 (clamp01 (1 - dist_to_line / line_width)) else cov1)
                  else cov1)
      in if underscore_x \<le> x \<and> x \<le> underscore_x + underscore_len then
           (let dist_to_line = \<bar>y - underscore_y\<bar>
            in if dist_to_line < line_width * 0.9 then
                 (let h_factor =
                        (if x < underscore_x + 1 then clamp01 (x - underscore_x + 0.5)
                         else if x > underscore_x + underscore_len - 1
                         then clamp01 (underscore_x + underscore_len - x + 0.5)
                         else 1)
                  in max cov2 (clamp01 (1 - dist_to_line / (line_width * 0.9)) * h_factor))
               else cov2)
         else cov2)"

subsection \<open>Brightness (sun with rays)\<close>

definition ray_angle :: real where
  "ray_angle = (2 * pi) / 8"

definition ray_normalized :: "real \<Rightarrow> real" where
  "ray_normalized angle = py_fmod (py_fmod angle ray_angle + ray_angle) ray_angle"

text \<open>
  The body of the branch \<^verbatim>\<open>if ray_inner - 0.5 <= dist <= ray_outer + 0.5\<close> of
  \<^verbatim>\<open>brightness_coverage\<close> after its first line \<^verbatim>\<open>angle = math.atan2(...)\<close>: the new
  value of \<^verbatim>\<open>coverage\<close> as a function of the distance, the angle and the old value.
\<close>

definition brightness_rays :: "int \<Rightarrow> real \<Rightarrow> real \<Rightarrow> real \<Rightarrow> real" where
  "brightness_rays sz distv angle coverage =
     (let sun_r = 5;
          ray_inner = sun_r + 3;
          ray_outer = of_int sz / 2 - 8;
          ray_width = 0.28;
          ray_thickness = 2;
          normalized = ray_normalized angle;
          dist_to_ray_center = min normalized (ray_angle - normalized)
      in if dist_to_ray_center < ray_width then
           (let angular_factor = clamp01 (1 - dist_to_ray_center / (ray_width * 0.6));
                radial_factor =
                  (if distv < ray_inner + 1 then clamp01 (distv - ray_inner + 0.5)
                   else if distv > ray_outer - 1 then clamp01 (ray_outer + 0.5 - distv)
                   else 1);
                perp_dist = distv * sin dist_to_ray_center;
                thickness_factor = clamp01 (1 - perp_dist / ray_thickness);
                ray_coverage = angular_factor * radial_factor * thickness_factor
            in max coverage ray_coverage)
         else coverage)"

definition brightness_coverage :: "int \<Rightarrow> real \<Rightarrow> real \<Rightarrow> real" where
  "brightness_coverage sz x y =
     (let cx = of_int sz / 2 - 0.5;
          cy = cx;
          sun_r = 5;
          ray_inner = sun_r + 3;
          ray_outer = of_int sz / 2 - 8;
          dist = distance x y cx cy;
          coverage =
            (if dist < sun_r + 0.5
             then (if dist \<le> sun_r - 0.5 then 1 else clamp01 (sun_r + 0.5 - dist))
             else 0)
      in if ray_inner - 0.5 \<le> dist \<and> dist \<le> ray_outer + 0.5
         then brightness_rays sz dist (py_atan2 (y - cy) (x - cx)) coverage
         else coverage)"

subsection \<open>WiFi arcs\<close>

text \<open>
  The arcs of \<^verbatim>\<open>wifi_coverage\<close>: the value of \<^verbatim>\<open>coverage\<close> after the loop over the
  three radii, as a function of the distance and of \<^verbatim>\<open>angle = math.atan2(...)\<close>.
\<close>

definition wifi_arcs :: "real \<Rightarrow> real \<Rightarrow> real" where
  "wifi_arcs distv angle =
     (let arc_width = 2.2;
          arc_angle = pi * 0.75;
          angle_from_up = \<bar>angle + pi / 2\<bar>
      in if angle_from_up < arc_angle / 2 then
           fold (\<lambda>rad coverage.
               (let ring_dist = \<bar>distv - rad\<bar>
                in if ring_dist < arc_width then
                     (let ring_factor = clamp01 (1 - ring_dist / (arc_width * 0.55));
                          angle_edge = arc_angle / 2 - \<bar>angle_from_up\<bar>;
                          ring_factor' =
                            (if angle_edge < 0.2 then ring_factor * clamp01 (angle_edge / 0.2)
                             else ring_factor)
                      in max coverage ring_factor')
                   else coverage))
             [6.5, 11, 15.5] 0
         else 0)"

definition wifi_coverage :: "int \<Rightarrow> real \<Rightarrow> real \<Rightarrow> real" where
  "wifi_coverage sz x y =
     (let cx = of_int sz / 2 - 0.5;
          cy = of_int sz / 2 + 4;
          dot_r = 2.8;
          dist = distance x y cx cy;
          coverage = wifi_arcs dist (py_atan2 (y - cy) (x - cx));
          dot_cy = cy + 1;
          dot_dist = distance x y cx dot_cy
      in if dot_dist < dot_r + 0.5
         then (if dot_dist \<le> dot_r - 0.5 then max coverage 1
               else max coverage (clamp01 (dot_r + 0.5 - dot_dist)))
         else coverage)"

subsection \<open>More (three dots)\<close>

definition dot_positions :: "int \<Rightarrow> (real \<times> real) list" where
  "dot_positions sz =
     (let cx = of_int sz / 2 - 0.5;
          cy = of_int sz / 2 - 0.5;
          spacing = 10
      in [(cx - spacing, cy), (cx, cy), (cx + spacing, cy)])"

definition more_dot :: "real \<Rightarrow> real \<Rightarrow> real \<times> real \<Rightarrow> real \<Rightarrow> real" where
  "more_dot x y dxy coverage =
     (case dxy of (dx, dy) \<Rightarrow>
        (let dot_r = 3.2;
             dist = distance x y dx dy
         in if dist < dot_r + 0.5
            then (if dist \<le> dot_r - 0.5 then max coverage 1
                  else max coverage (clamp01 (dot_r + 0.5 - dist)))
            else coverage))"

definition more_coverage :: "int \<Rightarrow> real \<Rightarrow> real \<Rightarrow> real" where
  "more_coverage sz x y = fold (more_dot x y) (dot_positions sz) 0"

section \<open>Drawing the symbols and composing an icon\<close>

definition draw_gear_symbol :: "int list \<Rightarrow> int \<Rightarrow> int \<Rightarrow> py_error + int list" where
  "draw_gear_symbol pixels sz fg_color = composite_symbol (gear_coverage sz) 0.95 pixels sz fg_color"

definition draw_target_symbol :: "int list \<Rightarrow> int \<Rightarrow> int \<Rightarrow> py_error + int list" where
  "draw_target_symbol pixels sz fg_color = composite_symbol (target_coverage sz) 0.92 pixels sz fg_color"

definition draw_play_symbol :: "int list \<Rightarrow> int \<Rightarrow> int \<Rightarrow> py_error + int list" where
  "draw_play_symbol pixels sz fg_color = composite_symbol (play_coverage sz) 0.95 pixels sz fg_color"

definition draw_terminal_symbol :: "int list \<Rightarrow> int \<Rightarrow> int \<Rightarrow> py_error + int list" where
  "draw_terminal_symbol pixels sz fg_color =
     composite_symbol (terminal_coverage sz) 0.92 pixels sz fg_color"

definition draw_brightness_symbol :: "int list \<Rightarrow> int \<Rightarrow> int \<Rightarrow> py_error + int list" where
  "draw_brightness_symbol pixels sz fg_color =
     composite_symbol (brightness_coverage sz) 0.93 pixels sz fg_color"

definition draw_wifi_symbol :: "int list \<Rightarrow> int \<Rightarrow> int \<Rightarrow> py_error + int list" where
  "draw_wifi_symbol pixels sz fg_color = composite_symbol (wifi_coverage sz) 0.92 pixels sz fg_color"

definition draw_more_symbol :: "int list \<Rightarrow> int \<Rightarrow> int \<Rightarrow> py_error + int list" where
  "draw_more_symbol pixels sz fg_color = composite_symbol (more_coverage sz) 0.93 pixels sz fg_color"

record IconDef =
  name :: string
  bg_color :: int
  symbol :: string

definition generate_icon :: "IconDef \<Rightarrow> int \<Rightarrow> py_error + int list" where
  "generate_icon icon_def transparent =
     (let pixels = generate_circle_background ICON_SIZE (bg_color icon_def) transparent;
          symbol_color = 0xFFFF
      in if symbol icon_def = ''gear'' then draw_gear_symbol pixels ICON_SIZE symbol_color
         else if symbol icon_def = ''target'' then draw_target_symbol pixels ICON_SIZE symbol_color
         else if symbol icon_def = ''play'' then draw_play_symbol pixels ICON_SIZE symbol_color
         else if symbol icon_def = ''terminal'' then draw_terminal_symbol pixels ICON_SIZE symbol_color
         else if symbol icon_def = ''brightness'' then draw_brightness_symbol pixels ICON_SIZE symbol_color
         else if symbol icon_def = ''wifi'' then draw_wifi_symbol pixels ICON_SIZE symbol_color
         else if symbol icon_def = ''more'' then draw_more_symbol pixels ICON_SIZE symbol_color
         else Inr pixels)"

section \<open>Packing and unpacking: bit-level facts\<close>

lemma disj_low: "push_bit n (x::int) AND take_bit n y = 0"
  by (rule bit_eqI) (auto simp add: bit_simps)

lemma or_low_add:
  assumes "0 \<le> y" "y < 2 ^ n"
  shows "push_bit n (x::int) OR y = x * 2 ^ n + y"
proof -
  have y: "take_bit n y = y" using assms by (simp add: take_bit_int_eq_self)
  have "push_bit n x AND y = 0" using disj_low[of n x y] by (simp add: y)
  then have "push_bit n x + y = push_bit n x OR y" by (rule disjunctive_add_eq_or)
  then show ?thesis by (simp add: push_bit_eq_mult)
qed

lemma pack_fields:
  assumes "0 \<le> r5" "0 \<le> g6" "g6 < 64" "0 \<le> b5" "b5 < (32::int)"
  shows "push_bit 11 r5 OR push_bit 5 g6 OR b5 = r5 * 2048 + g6 * 32 + b5"
proof -
  have 1: "push_bit 5 g6 OR b5 = g6 * 32 + b5"
    using or_low_add[of b5 5 g6] assms by simp
  have 2: "push_bit 11 r5 OR (g6 * 32 + b5) = r5 * 2048 + (g6 * 32 + b5)"
    using or_low_add[of "g6 * 32 + b5" 11 r5] assms by simp
  show ?thesis by (simp add: or.assoc 1 2)
qed

lemma and31: "(x::int) AND 31 = x mod 32"
proof -
  have "x AND mask 5 = x mod 2 ^ 5"
    by (simp flip: take_bit_eq_mask add: take_bit_eq_mod)
  then show ?thesis by (simp add: mask_eq_exp_minus_1)
qed

lemma and63: "(x::int) AND 63 = x mod 64"
proof -
  have "x AND mask 6 = x mod 2 ^ 6"
    by (simp flip: take_bit_eq_mask add: take_bit_eq_mod)
  then show ?thesis by (simp add: mask_eq_exp_minus_1)
qed

lemma fields_of_pack:
  assumes "0 \<le> r5" "r5 < 32" "0 \<le> g6" "g6 < 64" "0 \<le> b5" "b5 < (32::int)"
  shows "field_r (push_bit 11 r5 OR push_bit 5 g6 OR b5) = r5"
    and "field_g (push_bit 11 r5 OR push_bit 5 g6 OR b5) = g6"
    and "field_b (push_bit 11 r5 OR push_bit 5 g6 OR b5) = b5"
proof -
  let ?p = "push_bit 11 r5 OR push_bit 5 g6 OR b5"
  have p: "?p = r5 * 2048 + g6 * 32 + b5" using assms by (simp add: pack_fields)
  show "field_r ?p = r5" unfolding field_r_def p and31 drop_bit_eq_div using assms by simp
  have d: "(r5 * 2048 + g6 * 32 + b5) div 32 = r5 * 64 + g6" using assms by linarith
  have "(r5 * 64 + g6) mod 64 = g6" using assms by simp
  then show "field_g ?p = g6" unfolding field_g_def p and63 drop_bit_eq_div using d by simp
  have "r5 * 2048 + g6 * 32 + b5 = (r5 * 64 + g6) * 32 + b5" by simp
  then have "(r5 * 2048 + g6 * 32 + b5) mod 32 = b5 mod 32" by (metis mod_mult_self3)
  then have "(r5 * 2048 + g6 * 32 + b5) mod 32 = b5" using assms by simp
  then show "field_b ?p = b5" unfolding field_b_def p and31 by simp
qed

lemma and_shifted_mask:
  "(x::int) AND push_bit k (mask n) = push_bit k (take_bit n (drop_bit k x))"
  by (rule bit_eqI) (auto simp add: bit_simps)

lemma and_f8: "(x::int) AND 0xF8 = 8 * ((x div 8) mod 32)"
proof -
  have e: "(0xF8::int) = push_bit 3 (mask 5)"
    by (simp add: mask_eq_exp_minus_1 push_bit_eq_mult)
  show ?thesis unfolding e and_shifted_mask
    by (simp add: push_bit_eq_mult take_bit_eq_mod drop_bit_eq_div)
qed

lemma and_fc: "(x::int) AND 0xFC = 4 * ((x div 4) mod 64)"
proof -
  have e: "(0xFC::int) = push_bit 2 (mask 6)"
    by (simp add: mask_eq_exp_minus_1 push_bit_eq_mult)
  show ?thesis unfolding e and_shifted_mask
    by (simp add: push_bit_eq_mult take_bit_eq_mod drop_bit_eq_div)
qed

text \<open>The fields \<^verbatim>\<open>to_rgb565\<close> stores are the rounded quotients of the clamped channels.\<close>

lemma quot5_range: "0 \<le> c \<Longrightarrow> c \<le> (255::int) \<Longrightarrow> 0 \<le> (c * 31 + 127) div 255 \<and> (c * 31 + 127) div 255 < 32"
  by linarith

lemma quot6_range: "0 \<le> c \<Longrightarrow> c \<le> (255::int) \<Longrightarrow> 0 \<le> (c * 63 + 127) div 255 \<and> (c * 63 + 127) div 255 < 64"
  by linarith

lemma to_rgb565_fields:
  "field_r (to_rgb565 c) = (r (Color_clamp c) * 31 + 127) div 255"
  "field_g (to_rgb565 c) = (g (Color_clamp c) * 63 + 127) div 255"
  "field_b (to_rgb565 c) = (b (Color_clamp c) * 31 + 127) div 255"
proof -
  have cr: "0 \<le> r (Color_clamp c) \<and> r (Color_clamp c) \<le> 255"
    and cg: "0 \<le> g (Color_clamp c) \<and> g (Color_clamp c) \<le> 255"
    and cb: "0 \<le> b (Color_clamp c) \<and> b (Color_clamp c) \<le> 255"
    by (simp_all add: Color_clamp_def)
  note q = quot5_range[of "r (Color_clamp c)"] quot6_range[of "g (Color_clamp c)"]
    quot5_range[of "b (Color_clamp c)"]
  show "field_r (to_rgb565 c) = (r (Color_clamp c) * 31 + 127) div 255"
    unfolding to_rgb565_def Let_def using q cr cg cb by (intro fields_of_pack) simp_all
  show "field_g (to_rgb565 c) = (g (Color_clamp c) * 63 + 127) div 255"
    unfolding to_rgb565_def Let_def using q cr cg cb by (intro fields_of_pack) simp_all
  show "field_b (to_rgb565 c) = (b (Color_clamp c) * 31 + 127) div 255"
    unfolding to_rgb565_def Let_def using q cr cg cb by (intro fields_of_pack) simp_all
qed

lemma rgb565_to_rgb_fields:
  "rgb565_to_rgb color = (8 * field_r color, 4 * field_g color, 8 * field_b color)"
  by (simp add: rgb565_to_rgb_def field_r_def field_g_def field_b_def push_bit_eq_mult)

lemma err5: "0 \<le> c \<Longrightarrow> c \<le> (255::int) \<Longrightarrow> \<bar>8 * ((c * 31 + 127) div 255) - c\<bar> \<le> 10"
  by linarith

lemma err6: "0 \<le> c \<Longrightarrow> c \<le> (255::int) \<Longrightarrow> \<bar>4 * ((c * 63 + 127) div 255) - c\<bar> \<le> 4"
  by linarith

lemma round_quot: "round (real_of_int (c * m) / 255) = (2 * (c * m) + 255) div 510"
proof -
  have "real_of_int (c * m) / 255 + 1 / 2 = real_of_int (2 * (c * m) + 255) / real_of_int 510"
    by (simp add: field_simps)
  then show ?thesis unfolding round_def by (simp only: floor_divide_of_int_eq)
qed

lemma round5: "round (real_of_int (c * 31) / 255) = (c * 31 + 127) div 255"
  unfolding round_quot by linarith

lemma round6: "round (real_of_int (c * 63) / 255) = (c * 63 + 127) div 255"
  unfolding round_quot by linarith

section \<open>Canvas: indexing and blending facts\<close>

lemma idx_range:
  assumes "in_bounds cv x y"
  shows "0 \<le> idx cv x y" "idx cv x y < w cv * h cv"
proof -
  from assms have b: "0 \<le> x" "x < w cv" "0 \<le> y" "y < h cv" by (simp_all add: in_bounds_def)
  then show "0 \<le> idx cv x y" by (simp add: idx_def)
  have "y + 1 \<le> h cv" using b by simp
  then have "(y + 1) * w cv \<le> h cv * w cv" using b by (intro mult_right_mono) simp_all
  then show "idx cv x y < w cv * h cv" using b by (simp add: idx_def algebra_simps)
qed

lemma py_index_in:
  assumes "in_bounds cv x y" "canvas_wf cv"
  shows "py_index (length (px cv)) (idx cv x y) = Some (nat (idx cv x y))"
    and "nat (idx cv x y) < length (px cv)"
  using idx_range[OF assms(1)] assms(2) by (simp_all add: py_index_def canvas_wf_def)

lemma Canvas_init_wf: "Canvas_init wd ht c = Inr cv \<Longrightarrow> canvas_wf cv"
  by (auto simp add: Canvas_init_def canvas_wf_def)

lemma Canvas_set_in:
  assumes "in_bounds cv x y" "canvas_wf cv"
  shows "Canvas_set cv x y c = Inr (cv\<lparr>px := (px cv)[nat (idx cv x y) := c]\<rparr>)"
  using assms by (simp add: Canvas_set_def py_setitem_def py_index_in)


lemma Canvas_seta_in:
  assumes "in_bounds cv x y" "canvas_wf cv"
  shows "Canvas_seta cv x y c a =
    Inr (cv\<lparr>px := (px cv)[nat (idx cv x y) := blend_over (px cv ! nat (idx cv x y)) c a]\<rparr>)"
  using assms by (simp add: Canvas_seta_def py_getitem_def py_setitem_def py_index_in)

lemma py_int_of_int [simp]: "py_int (of_int k) = k"
  by (simp add: py_int_def)



lemma py_int_range:
  assumes "0 \<le> v" "v \<le> 255"
  shows "0 \<le> py_int v" "py_int v \<le> 255"
  using assms by (simp_all add: py_int_def floor_le_iff) 

lemma convex_range:
  fixes p q a :: real
  assumes "0 \<le> a" "a \<le> 1" "0 \<le> p" "p \<le> 255" "0 \<le> q" "q \<le> 255"
  shows "0 \<le> p * (1 - a) + q * a" "p * (1 - a) + q * a \<le> 255"
proof -
  show "0 \<le> p * (1 - a) + q * a" using assms by simp
  have "p * (1 - a) \<le> 255 * (1 - a)" using assms by (intro mult_right_mono) simp_all
  moreover have "q * a \<le> 255 * a" using assms by (intro mult_right_mono) simp_all
  ultimately show "p * (1 - a) + q * a \<le> 255" by (simp add: algebra_simps)
qed

lemma blend_over_ok:
  assumes "color_ok dst" "color_ok src"
  shows "color_ok (blend_over dst src alpha)"
proof -
  define a where "a = max 0 (min 1 alpha)"
  have a: "0 \<le> a" "a \<le> 1" by (simp_all add: a_def)
  have ch: "0 \<le> py_int (of_int p * (1 - a) + of_int q * a) \<and> py_int (of_int p * (1 - a) + of_int q * a) \<le> 255"
    if "0 \<le> p" "p \<le> 255" "0 \<le> q" "q \<le> 255" for p q :: int
    using that convex_range[OF a, of "of_int p" "of_int q"] py_int_range by simp
  show ?thesis
    using assms ch unfolding color_ok_def blend_over_def Let_def a_def[symmetric]
    by simp
qed

lemma lerp_ok:
  assumes "color_ok c" "color_ok other"
  shows "color_ok (lerp c other t)"
proof -
  define a where "a = max 0 (min 1 t)"
  have a: "0 \<le> a" "a \<le> 1" by (simp_all add: a_def)
  have ch: "0 \<le> py_int (of_int p + of_int (q - p) * a) \<and> py_int (of_int p + of_int (q - p) * a) \<le> 255"
    if "0 \<le> p" "p \<le> 255" "0 \<le> q" "q \<le> 255" for p q :: int
  proof -
    have "of_int p + of_int (q - p) * a = of_int p * (1 - a) + of_int q * a"
      by (simp add: algebra_simps)
    then show ?thesis
      using that convex_range[OF a, of "of_int p" "of_int q"] py_int_range by simp
  qed
  show ?thesis
    using assms ch unfolding color_ok_def lerp_def Let_def a_def[symmetric]
    by simp
qed


text \<open>
  \<^verbatim>\<open>rgb_to_565\<close>, the packer of the circular icons, keeps the high bits of each byte.
\<close>

lemma rgb_to_565_bytes:
  assumes "0 \<le> rv" "rv \<le> 255" "0 \<le> gv" "gv \<le> 255" "0 \<le> bv" "bv \<le> 255"
  shows "rgb_to_565 rv gv bv = (rv div 8) * 2048 + (gv div 4) * 32 + bv div 8"
proof -
  have r: "(rv div 8) mod 32 = rv div 8" using assms by simp
  have g: "(gv div 4) mod 64 = gv div 4" using assms by simp
  have "rgb_to_565 rv gv bv =
        push_bit 11 (rv div 8) OR push_bit 5 (gv div 4) OR (bv div 8)"
    unfolding rgb_to_565_def and_f8 and_fc r g
    by (simp add: push_bit_eq_mult drop_bit_eq_div mult.commute)
  also have "\<dots> = (rv div 8) * 2048 + (gv div 4) * 32 + bv div 8"
    using assms by (intro pack_fields) simp_all
  finally show ?thesis .
qed

lemma rgb_to_565_truncates:
  assumes "0 \<le> rv" "rv \<le> 255" "0 \<le> gv" "gv \<le> 255" "0 \<le> bv" "bv \<le> 255"
  shows "field_r (rgb_to_565 rv gv bv) = drop_bit 3 rv"
    and "field_g (rgb_to_565 rv gv bv) = drop_bit 2 gv"
    and "field_b (rgb_to_565 rv gv bv) = drop_bit 3 bv"
proof -
  have q: "0 \<le> rv div 8" "rv div 8 < 32" "0 \<le> gv div 4" "gv div 4 < 64"
    "0 \<le> bv div 8" "bv div 8 < 32"
    using assms by simp_all
  have "rgb_to_565 rv gv bv = push_bit 11 (rv div 8) OR push_bit 5 (gv div 4) OR (bv div 8)"
    using rgb_to_565_bytes[OF assms] pack_fields[OF q(1,3,4,5,6)] by simp
  then show "field_r (rgb_to_565 rv gv bv) = drop_bit 3 rv"
    and "field_g (rgb_to_565 rv gv bv) = drop_bit 2 gv"
    and "field_b (rgb_to_565 rv gv bv) = drop_bit 3 bv"
    using fields_of_pack[OF q] by (simp_all add: drop_bit_eq_div)
qed

text \<open>
  A channel scaled by 31/255 or 63/255 is never exactly halfway between two integers, so
  rounding half up (\<^const>\<open>round\<close>) and rounding half to even give the same field.
\<close>

lemma scaled_channel_no_tie: "frac (real_of_int k / 255) \<noteq> 1 / 2"
proof
  assume "frac (real_of_int k / 255) = 1 / 2"
  then have "real_of_int k / 255 - of_int \<lfloor>real_of_int k / 255\<rfloor> = 1 / 2"
    by (simp add: frac_def)
  then have "real_of_int (2 * k) = real_of_int (255 * (2 * \<lfloor>real_of_int k / 255\<rfloor> + 1))"
    by (simp add: field_simps)
  then have "2 * k = 255 * (2 * \<lfloor>real_of_int k / 255\<rfloor> + 1)"
    by (simp only: of_int_eq_iff)
  then have "even (255 * (2 * \<lfloor>real_of_int k / 255\<rfloor> + 1))"
    by (metis dvd_triv_left)
  then show False by simp
qed

section \<open>Claims about the colour model\<close>

text \<open>
  C1 (as amended). Packing a colour with \<^verbatim>\<open>Color.to_rgb565\<close> and expanding it again with
  \<^verbatim>\<open>rgb565_to_rgb\<close> gives channels that differ from the clamped colour by at most 10
  in red and blue and by at most 4 in green.
\<close>

theorem roundtrip_error_bound:
  "(case rgb565_to_rgb (to_rgb565 c) of (r', g', b') \<Rightarrow>
      \<bar>r' - r (Color_clamp c)\<bar> \<le> 10 \<and> \<bar>g' - g (Color_clamp c)\<bar> \<le> 4 \<and>
      \<bar>b' - b (Color_clamp c)\<bar> \<le> 10)"
proof -
  have cr: "0 \<le> r (Color_clamp c)" "r (Color_clamp c) \<le> 255"
    and cg: "0 \<le> g (Color_clamp c)" "g (Color_clamp c) \<le> 255"
    and cb: "0 \<le> b (Color_clamp c)" "b (Color_clamp c) \<le> 255"
    by (simp_all add: Color_clamp_def)
  show ?thesis
    unfolding rgb565_to_rgb_fields to_rgb565_fields
    using err5[OF cr] err6[OF cg] err5[OF cb] by simp
qed

text \<open>
  C1 as stated (at most 4 in every channel) fails: the colour (250, 252, 250) comes back
  as (240, 248, 240), so red is off by 10.
\<close>

theorem roundtrip_within_4_counterexample:
  "rgb565_to_rgb (to_rgb565 \<lparr>r = 250, g = 252, b = 250\<rparr>) = (240, 248, 240) \<and>
   Color_clamp \<lparr>r = 250, g = 252, b = 250\<rparr> = \<lparr>r = 250, g = 252, b = 250\<rparr> \<and>
   \<not> \<bar>240 - r (Color_clamp \<lparr>r = 250, g = 252, b = 250\<rparr>)\<bar> \<le> 4"
  unfolding rgb565_to_rgb_fields to_rgb565_fields by (simp add: Color_clamp_def)

lemma to_rgb565_rounds:
  "field_r (to_rgb565 c) = round (real_of_int (r (Color_clamp c) * 31) / 255) \<and>
   field_g (to_rgb565 c) = round (real_of_int (g (Color_clamp c) * 63) / 255) \<and>
   field_b (to_rgb565 c) = round (real_of_int (b (Color_clamp c) * 31) / 255) \<and>
   field_r (to_rgb565 \<lparr>r = 7, g = 3, b = 7\<rparr>) \<noteq> drop_bit 3 7 \<and>
   field_g (to_rgb565 \<lparr>r = 7, g = 3, b = 7\<rparr>) \<noteq> drop_bit 2 3"
  unfolding to_rgb565_fields round5 round6
  by (simp add: Color_clamp_def drop_bit_eq_div)

text \<open>
  C2 (as amended). \<^verbatim>\<open>Color.to_rgb565\<close>, the packer of generate_menu_icons.py,
  compresses each clamped channel by rounding: each field is the channel scaled to the
  field's maximum and rounded to the nearest integer, which is not the channel with its
  low-order bits cut off, as the colour (7, 3, 7) shows. The tuple packer
  \<^verbatim>\<open>rgb_to_565\<close> of generate_circular_icons.py truncates instead: for channels in
  0..255 its fields are the red and blue channels shifted right by 3 and the green
  channel shifted right by 2.
\<close>

theorem packing_rounds_or_truncates:
  "field_r (to_rgb565 c) = round (real_of_int (r (Color_clamp c) * 31) / 255) \<and>
   field_g (to_rgb565 c) = round (real_of_int (g (Color_clamp c) * 63) / 255) \<and>
   field_b (to_rgb565 c) = round (real_of_int (b (Color_clamp c) * 31) / 255) \<and>
   field_r (to_rgb565 \<lparr>r = 7, g = 3, b = 7\<rparr>) \<noteq> drop_bit 3 7 \<and>
   field_g (to_rgb565 \<lparr>r = 7, g = 3, b = 7\<rparr>) \<noteq> drop_bit 2 3 \<and>
   (0 \<le> rv \<and> rv \<le> 255 \<and> 0 \<le> gv \<and> gv \<le> 255 \<and> 0 \<le> bv \<and> bv \<le> 255 \<longrightarrow>
      field_r (rgb_to_565 rv gv bv) = drop_bit 3 rv \<and>
      field_g (rgb_to_565 rv gv bv) = drop_bit 2 gv \<and>
      field_b (rgb_to_565 rv gv bv) = drop_bit 3 bv)"
  using to_rgb565_rounds[of c] rgb_to_565_truncates[of rv gv bv] by blast

theorem packing_rounds_or_truncates_witness:
  "field_r (to_rgb565 \<lparr>r = 200, g = 100, b = 7\<rparr>) = round (real_of_int (200 * 31) / 255) \<and>
   field_r (rgb_to_565 200 100 7) = drop_bit 3 200 \<and>
   field_g (rgb_to_565 200 100 7) = drop_bit 2 100 \<and>
   field_b (rgb_to_565 200 100 7) = drop_bit 3 7"
  using packing_rounds_or_truncates[of "\<lparr>r = 200, g = 100, b = 7\<rparr>" 200 100 7]
  by (simp add: Color_clamp_def)

text \<open>
  C2 as stated fails for \<^verbatim>\<open>rgb_to_565\<close>: the channels (7, 3, 7) pack to 0, so every
  field is 0, while rounding 7 * 31 / 255 and 3 * 63 / 255 gives 1.
\<close>

theorem rgb_to_565_truncation_counterexample:
  "rgb_to_565 7 3 7 = 0 \<and>
   field_r (rgb_to_565 7 3 7) = 0 \<and> round (real_of_int (7 * 31) / 255) = 1 \<and>
   field_g (rgb_to_565 7 3 7) = 0 \<and> round (real_of_int (3 * 63) / 255) = 1"
proof -
  have "rgb_to_565 7 3 7 = 0" by (simp add: rgb_to_565_bytes)
  moreover have "field_r 0 = 0" "field_g 0 = 0" by (simp_all add: field_r_def field_g_def)
  moreover have "round (real_of_int (7 * 31) / 255) = 1" unfolding round5 by simp
  moreover have "round (real_of_int (3 * 63) / 255) = 1" unfolding round6 by simp
  ultimately show ?thesis by (simp only: simp_thms)
qed

section \<open>Claims about the canvas\<close>

lemma Canvas_set_wf:
  assumes "canvas_wf cv" "Canvas_set cv x y c = Inr cv'"
  shows "canvas_wf cv'"
proof (cases "in_bounds cv x y")
  case True
  then show ?thesis
    using assms Canvas_set_in[OF True assms(1), of c] by (auto simp add: canvas_wf_def)
next
  case False
  then show ?thesis using assms by (simp add: Canvas_set_def)
qed

lemma Canvas_seta_wf:
  assumes "canvas_wf cv" "Canvas_seta cv x y c a = Inr cv'"
  shows "canvas_wf cv'"
proof (cases "in_bounds cv x y")
  case True
  then show ?thesis
    using assms Canvas_seta_in[OF True assms(1), of c a] by (auto simp add: canvas_wf_def)
next
  case False
  then show ?thesis using assms by (simp add: Canvas_seta_def)
qed

text \<open>
  C3. At a coordinate outside the grid, \<^verbatim>\<open>set\<close> and \<^verbatim>\<open>seta\<close> return the canvas as it
  was, \<^verbatim>\<open>get\<close> returns the background colour, and none of the three raises; this holds
  for every canvas value, whatever its pixel list.
\<close>

theorem out_of_bounds_access:
  assumes "\<not> in_bounds cv x y"
  shows "Canvas_set cv x y c = Inr cv \<and> Canvas_seta cv x y c a = Inr cv \<and>
         Canvas_get cv x y = Inr (bg cv)"
  using assms by (simp add: Canvas_set_def Canvas_seta_def Canvas_get_def)

theorem out_of_bounds_access_witness:
  "\<not> in_bounds \<lparr>w = 2, h = 2, bg = \<lparr>r = 1, g = 2, b = 3\<rparr>,
                  px = replicate 4 \<lparr>r = 1, g = 2, b = 3\<rparr>\<rparr> 2 (-1) \<and>
   Canvas_get \<lparr>w = 2, h = 2, bg = \<lparr>r = 1, g = 2, b = 3\<rparr>,
                px = replicate 4 \<lparr>r = 1, g = 2, b = 3\<rparr>\<rparr> 2 (-1) = Inr \<lparr>r = 1, g = 2, b = 3\<rparr> \<and>
   Canvas_seta \<lparr>w = 2, h = 2, bg = \<lparr>r = 1, g = 2, b = 3\<rparr>,
                px = replicate 4 \<lparr>r = 1, g = 2, b = 3\<rparr>\<rparr> 2 (-1) \<lparr>r = 9, g = 9, b = 9\<rparr> (1 / 2) =
     Inr \<lparr>w = 2, h = 2, bg = \<lparr>r = 1, g = 2, b = 3\<rparr>, px = replicate 4 \<lparr>r = 1, g = 2, b = 3\<rparr>\<rparr>"
proof -
  have n: "\<not> in_bounds \<lparr>w = 2, h = 2, bg = \<lparr>r = 1, g = 2, b = 3\<rparr>,
                  px = replicate 4 \<lparr>r = 1, g = 2, b = 3\<rparr>\<rparr> 2 (-1)"
    by (simp add: in_bounds_def)
  show ?thesis
    using n out_of_bounds_access[OF n, of "\<lparr>r = 9, g = 9, b = 9\<rparr>" "1 / 2"] by simp
qed



text \<open>
  C7 (as amended). Constructing a canvas never fails, whatever the dimensions. With a zero
  or negative width or height the constructor returns a canvas with \<open>max 0 (w * h)\<close>
  background pixels (none when the product is not positive) on which no coordinate is
  inside the grid.
\<close>

theorem degenerate_canvas_constructed:
  assumes "wd \<le> 0 \<or> ht \<le> 0"
  shows "\<exists>cv. Canvas_init wd ht c = Inr cv \<and> w cv = wd \<and> h cv = ht \<and>
           px cv = replicate (nat (wd * ht)) c \<and> (\<forall>x y. \<not> in_bounds cv x y)"
  using assms by (auto simp add: Canvas_init_def in_bounds_def)

theorem degenerate_canvas_constructed_witness:
  "\<exists>cv. Canvas_init 0 5 \<lparr>r = 1, g = 2, b = 3\<rparr> = Inr cv \<and> w cv = 0 \<and> h cv = 5 \<and>
      px cv = replicate (nat (0 * 5)) \<lparr>r = 1, g = 2, b = 3\<rparr> \<and> (\<forall>x y. \<not> in_bounds cv x y)"
  by (rule degenerate_canvas_constructed) simp

text \<open>
  C7 as stated fails: a width of 0 gives an empty canvas and dimensions -1 by -1 give a
  canvas of one stored pixel, both without an error.
\<close>

theorem degenerate_canvas_counterexample:
  "Canvas_init 0 5 \<lparr>r = 1, g = 2, b = 3\<rparr> =
     Inr \<lparr>w = 0, h = 5, bg = \<lparr>r = 1, g = 2, b = 3\<rparr>, px = []\<rparr> \<and>
   Canvas_init (-1) (-1) \<lparr>r = 1, g = 2, b = 3\<rparr> =
     Inr \<lparr>w = -1, h = -1, bg = \<lparr>r = 1, g = 2, b = 3\<rparr>, px = [\<lparr>r = 1, g = 2, b = 3\<rparr>]\<rparr>"
  by (simp add: Canvas_init_def)

lemma draw_keeps_ok:
  assumes "canvas_wf cv" "\<forall>p\<in>set (px cv). color_ok p" "color_ok (op_color d)"
  shows "\<exists>cv'. draw cv d = Inr cv' \<and> canvas_wf cv' \<and> (\<forall>p\<in>set (px cv'). color_ok p)"
proof (cases d)
  case (Set x y c)
  show ?thesis
  proof (cases "in_bounds cv x y")
    case True
    have "\<forall>p\<in>set ((px cv)[nat (idx cv x y) := c]). color_ok p"
      using assms Set by (auto dest!: set_update_subset_insert[THEN subsetD])
    then show ?thesis using True assms Set
      by (simp add: Canvas_set_in canvas_wf_def)
  next
    case False
    then show ?thesis using assms Set by (simp add: Canvas_set_def)
  qed
next
  case (SetA x y c a)
  show ?thesis
  proof (cases "in_bounds cv x y")
    case True
    have "color_ok (px cv ! nat (idx cv x y))"
      using assms(2) py_index_in(2)[OF True assms(1)] by simp
    then have "color_ok (blend_over (px cv ! nat (idx cv x y)) c a)"
      using assms(3) SetA by (simp add: blend_over_ok)
    then have "\<forall>p\<in>set ((px cv)[nat (idx cv x y) := blend_over (px cv ! nat (idx cv x y)) c a]).
        color_ok p"
      using assms(2) by (auto dest!: set_update_subset_insert[THEN subsetD])
    then show ?thesis using True assms SetA
      by (simp add: Canvas_seta_in canvas_wf_def)
  next
    case False
    then show ?thesis using assms SetA by (simp add: Canvas_seta_def)
  qed
qed

lemma draw_all_keeps_ok:
  assumes "canvas_wf cv" "\<forall>p\<in>set (px cv). color_ok p" "\<forall>d\<in>set ds. color_ok (op_color d)"
  shows "\<exists>cv'. draw_all cv ds = Inr cv' \<and> canvas_wf cv' \<and> (\<forall>p\<in>set (px cv'). color_ok p)"
  using assms
proof (induction ds arbitrary: cv)
  case Nil
  then show ?case by simp
next
  case (Cons d ds)
  from draw_keeps_ok[OF Cons.prems(1,2), of d] Cons.prems(3)
  obtain cv1 where 1: "draw cv d = Inr cv1" "canvas_wf cv1" "\<forall>p\<in>set (px cv1). color_ok p"
    by auto
  from Cons.IH[OF 1(2,3)] Cons.prems(3) show ?case using 1(1) by simp
qed

text \<open>
  C10. If the background colour of a freshly constructed canvas and the colour of every
  \<^verbatim>\<open>set\<close> and \<^verbatim>\<open>seta\<close> in a sequence of writes have their channels in 0..255
  (the alphas being any reals), the sequence runs without an exception and every stored
  pixel of the resulting canvas has its channels in 0..255.
\<close>

theorem channel_range_invariant:
  assumes "color_ok c0" "Canvas_init wd ht c0 = Inr cv0"
    and "\<forall>d\<in>set ds. color_ok (op_color d)"
  shows "\<exists>cv. draw_all cv0 ds = Inr cv \<and> (\<forall>p\<in>set (px cv). color_ok p)"
proof -
  have "canvas_wf cv0" using assms(2) by (rule Canvas_init_wf)
  moreover have "\<forall>p\<in>set (px cv0). color_ok p"
    using assms(1,2) by (auto simp add: Canvas_init_def)
  ultimately show ?thesis using draw_all_keeps_ok[OF _ _ assms(3)] by blast
qed

theorem channel_range_invariant_witness:
  "\<exists>cv. draw_all \<lparr>w = 2, h = 1, bg = \<lparr>r = 0, g = 0, b = 255\<rparr>,
                    px = replicate (nat (2 * 1)) \<lparr>r = 0, g = 0, b = 255\<rparr>\<rparr>
           [Set 0 0 \<lparr>r = 255, g = 255, b = 255\<rparr>, SetA 1 0 \<lparr>r = 255, g = 128, b = 0\<rparr> (3 / 4),
            SetA 5 5 \<lparr>r = 1, g = 1, b = 1\<rparr> 7] = Inr cv \<and>
        (\<forall>p\<in>set (px cv). color_ok p)"
  by (rule channel_range_invariant[where ?c0.0 = "\<lparr>r = 0, g = 0, b = 255\<rparr>" and wd = 2 and ht = 1])
    (simp_all add: color_ok_def Canvas_init_def)

section \<open>The sampler\<close>

lemma upt_4: "[0..<4] = [0, 1, 2, Suc 2]"
  by (simp add: numeral_eq_Suc upt_rec)

lemma sample_offsets:
  "sample_pixel_aa x y sz f =
     (\<Sum>sy\<leftarrow>[0..<4]. \<Sum>sx\<leftarrow>[0..<4].
        f (of_int x + 1 / 8 + real sx / 4) (of_int y + 1 / 8 + real sy / 4)) / 16"
  by (simp add: sample_pixel_aa_def AA_SAMPLES_def upt_4 Let_def algebra_simps)

lemma sample_pixel_aa_const:
  assumes "\<And>sx sy. sx < 4 \<Longrightarrow> sy < 4 \<Longrightarrow>
     f (of_int x + 1 / 8 + real sx / 4) (of_int y + 1 / 8 + real sy / 4) = v"
  shows "sample_pixel_aa x y sz f = v"
proof -
  have "(\<Sum>sy\<leftarrow>[0..<4]. \<Sum>sx\<leftarrow>[0..<4].
        f (of_int x + 1 / 8 + real sx / 4) (of_int y + 1 / 8 + real sy / 4)) =
      (\<Sum>sy\<leftarrow>[0..<4::nat]. \<Sum>sx\<leftarrow>[0..<4::nat]. v)"
    by (intro arg_cong[where f=sum_list] map_cong refl) (simp add: assms)
  also have "\<dots> = 16 * v" by (simp add: upt_4)
  finally show ?thesis by (simp add: sample_offsets)
qed

text \<open>
  C9. At every pixel, the sampler gives exactly 1 for the coverage function that is 1
  everywhere and exactly 0 for the coverage function that is 0 everywhere.
\<close>

theorem sampler_constant:
  "sample_pixel_aa x y sz (\<lambda>u v. 1) = 1 \<and> sample_pixel_aa x y sz (\<lambda>u v. 0) = 0"
  by (simp add: sample_pixel_aa_def AA_SAMPLES_def upt_4)


section \<open>Row-major pixel lists and the compositing pass\<close>

lemma nth_rows:
  assumes "x < n" "y < m"
  shows "concat (map (\<lambda>y. map (f y) [0..<n]) [0..<m]) ! (y * n + x) = f y x"
    and "length (concat (map (\<lambda>y. map (f y) [0..<n]) [0..<m])) = m * n"
proof -
  have len: "length (concat (map (\<lambda>y. map (f y) [0..<n]) [0..<k])) = k * n" for k
    by (induction k) simp_all
  show "length (concat (map (\<lambda>y. map (f y) [0..<n]) [0..<m])) = m * n" by (rule len)
  show "concat (map (\<lambda>y. map (f y) [0..<n]) [0..<m]) ! (y * n + x) = f y x"
    using assms(2)
  proof (induction m)
    case 0
    then show ?case by simp
  next
    case (Suc m)
    show ?case
    proof (cases "y < m")
      case True
      then have "y * n + x < m * n"
        using assms(1) by (metis add.commute mult_Suc less_le_trans add_less_cancel_left Suc_leI mult_le_mono1)
      then show ?thesis using Suc.IH[OF True] by (simp add: nth_append len)
    next
      case False
      then have "y = m" using Suc.prems by simp
      then show ?thesis using assms(1) by (simp add: nth_append len)
    qed
  qed
qed

lemma composite_pixel_in:
  assumes "cell n yx < length ps"
  shows "composite_pixel cov opacity (int n) fg yx (Inr ps) =
         Inr (ps[cell n yx := new_pixel cov opacity (int n) fg yx (ps ! cell n yx)])"
proof -
  obtain y x where yx: "yx = (y, x)" by (cases yx)
  have i: "int y * int n + int x = int (y * n + x)" by simp
  have "py_index (length ps) (int (y * n + x)) = Some (y * n + x)"
    using assms unfolding yx cell_def py_index_def
    by (simp only: of_nat_less_iff of_nat_0_le_iff nat_int fst_conv snd_conv if_True simp_thms)
  then show ?thesis
    unfolding composite_pixel_def yx new_pixel_def cell_def Let_def i py_getitem_def py_setitem_def
    by simp
qed

lemma composite_fold:
  assumes "\<forall>c\<in>set cs. cell n c < length ps"
  shows "fold (composite_pixel cov opacity (int n) fg) cs (Inr ps) =
         Inr (fold (\<lambda>c qs. qs[cell n c := new_pixel cov opacity (int n) fg c (qs ! cell n c)]) cs ps)"
  using assms
proof (induction cs arbitrary: ps)
  case Nil
  then show ?case by simp
next
  case (Cons c cs)
  then show ?case by (simp add: composite_pixel_in)
qed

lemma fold_update_length:
  "length (fold (\<lambda>c qs. qs[ix c := F c (qs ! ix c)]) cs ps) = length ps"
  by (induction cs arbitrary: ps) simp_all

lemma fold_update_untouched:
  assumes "j \<notin> ix ` set cs"
  shows "fold (\<lambda>c qs. qs[ix c := F c (qs ! ix c)]) cs ps ! j = ps ! j"
  using assms by (induction cs arbitrary: ps) auto

lemma fold_update_touched:
  assumes "distinct (map ix cs)" "c \<in> set cs" "ix c < length ps"
  shows "fold (\<lambda>c qs. qs[ix c := F c (qs ! ix c)]) cs ps ! ix c = F c (ps ! ix c)"
  using assms
proof (induction cs arbitrary: ps)
  case Nil
  then show ?case by simp
next
  case (Cons a cs)
  show ?case
  proof (cases "c = a")
    case True
    have "ix a \<notin> ix ` set cs" using Cons.prems(1) by simp
    then show ?thesis using True Cons.prems(3) by (simp add: fold_update_untouched)
  next
    case False
    then have c: "c \<in> set cs" using Cons.prems(2) by simp
    have "ix a \<notin> ix ` set cs" using Cons.prems(1) by simp
    moreover have "ix c \<in> ix ` set cs" using c by (rule imageI)
    ultimately have ne: "ix c \<noteq> ix a" by metis
    have "fold (\<lambda>c qs. qs[ix c := F c (qs ! ix c)]) cs (ps[ix a := F a (ps ! ix a)]) ! ix c =
          F c ((ps[ix a := F a (ps ! ix a)]) ! ix c)"
      using Cons.prems by (intro Cons.IH c) simp_all
    then show ?thesis using ne by simp
  qed
qed

lemma cells_of_grid:
  "map (cell n) (concat (map (\<lambda>y. map (\<lambda>x. (y, x)) [0..<n]) [0..<m])) = [0..<m * n]"
proof (induction m)
  case 0
  then show ?case by simp
next
  case (Suc m)
  have "map (cell n) (map (\<lambda>x. (m, x)) [0..<n]) = map (\<lambda>i. i + m * n) [0..<n]"
    by (simp add: cell_def)
  also have "\<dots> = [m * n..<n + m * n]" by (rule map_add_upt)
  also have "\<dots> = [m * n..<m * n + n]" by (simp only: add.commute[of n "m * n"])
  finally have row: "map (cell n) (map (\<lambda>x. (m, x)) [0..<n]) = [m * n..<m * n + n]" .
  have split_rows: "[0..<m * n + n] = [0..<m * n] @ [m * n..<m * n + n]"
    by (rule upt_add_eq_append) simp
  have e: "Suc m * n = m * n + n" by simp
  have "map (cell n) (concat (map (\<lambda>y. map (\<lambda>x. (y, x)) [0..<n]) [0..<Suc m])) =
        map (cell n) (concat (map (\<lambda>y. map (\<lambda>x. (y, x)) [0..<n]) [0..<m])) @
        map (cell n) (map (\<lambda>x. (m, x)) [0..<n])"
    by simp
  then show ?case unfolding Suc.IH row e split_rows .
qed

lemma composite_symbol_nth:
  assumes "length ps = n * n" "x < n" "y < n"
  shows "\<exists>qs. composite_symbol cov opacity ps (int n) fg = Inr qs \<and> length qs = n * n \<and>
           qs ! (y * n + x) = new_pixel cov opacity (int n) fg (y, x) (ps ! (y * n + x))"
proof -
  let ?cs = "concat (map (\<lambda>y. map (\<lambda>x. (y, x)) [0..<n]) [0..<n])"
  let ?up = "\<lambda>c qs. qs[cell n c := new_pixel cov opacity (int n) fg c (qs ! cell n c)]"
  have cells: "map (cell n) ?cs = [0..<n * n]" by (rule cells_of_grid)
  have inr: "\<forall>c\<in>set ?cs. cell n c < length ps"
  proof
    fix c assume "c \<in> set ?cs"
    then have "cell n c \<in> set (map (cell n) ?cs)" by (simp only: set_map) (rule imageI)
    then show "cell n c < length ps" unfolding cells using assms(1) by simp
  qed
  have d: "distinct (map (cell n) ?cs)" unfolding cells by simp
  have "(y, x) \<in> set (map (\<lambda>x. (y, x)) [0..<n])" using assms(2) by simp
  moreover have "map (\<lambda>x. (y, x)) [0..<n] \<in> set (map (\<lambda>y. map (\<lambda>x. (y, x)) [0..<n]) [0..<n])"
    unfolding set_map using assms(3) by (intro image_eqI[where x = y]) simp_all
  ultimately have m: "(y, x) \<in> set ?cs" unfolding set_concat by (rule UN_I[rotated])
  have lt: "cell n (y, x) < length ps"
    using inr m by blast
  have "composite_symbol cov opacity ps (int n) fg = Inr (fold ?up ?cs ps)"
    unfolding composite_symbol_def using composite_fold[OF inr] by simp
  moreover have "length (fold ?up ?cs ps) = n * n"
    using assms(1) by (simp add: fold_update_length)
  moreover have "fold ?up ?cs ps ! cell n (y, x) =
      new_pixel cov opacity (int n) fg (y, x) (ps ! cell n (y, x))"
    by (rule fold_update_touched[OF d m lt])
  ultimately show ?thesis by (simp add: cell_def)
qed

section \<open>Geometry of the 42 by 42 icon\<close>

lemma distance_le:
  assumes "0 \<le> k" "(cx - x)\<^sup>2 + (cy - y)\<^sup>2 \<le> k\<^sup>2"
  shows "distance x y cx cy \<le> k"
  unfolding distance_def using assms by (intro real_le_lsqrt) simp_all

lemma distance_ge:
  assumes "k\<^sup>2 \<le> (cx - x)\<^sup>2 + (cy - y)\<^sup>2"
  shows "k \<le> distance x y cx cy"
  unfolding distance_def using assms by (intro real_le_rsqrt)

lemma sq_le: "\<bar>a\<bar> \<le> k \<Longrightarrow> a\<^sup>2 \<le> (k::real)\<^sup>2"
  by (metis abs_le_square_iff abs_ge_zero abs_of_nonneg order_trans)

lemma sq_ge: "0 \<le> k \<Longrightarrow> k \<le> \<bar>a\<bar> \<Longrightarrow> (k::real)\<^sup>2 \<le> a\<^sup>2"
  by (metis abs_le_square_iff abs_of_nonneg)

lemma distance_near:
  assumes "\<bar>cx - x\<bar> \<le> 3 / 2" "\<bar>cy - y\<bar> \<le> 3 / 2"
  shows "distance x y cx cy \<le> 5 / 2"
proof -
  have "(cx - x)\<^sup>2 \<le> (3 / 2)\<^sup>2" "(cy - y)\<^sup>2 \<le> (3 / 2)\<^sup>2"
    using assms sq_le[of "cx - x" "3 / 2"] sq_le[of "cy - y" "3 / 2"] by simp_all
  then show ?thesis by (intro distance_le) (simp_all add: power2_eq_square)
qed

lemma distance_far_x:
  assumes "0 \<le> k" "k \<le> \<bar>cx - x\<bar>"
  shows "k \<le> distance x y cx cy"
proof -
  have "k\<^sup>2 \<le> (cx - x)\<^sup>2" using assms by (rule sq_ge)
  then show ?thesis by (intro distance_ge) (simp add: add_increasing2)
qed

lemma distance_far_y:
  assumes "0 \<le> k" "k \<le> \<bar>cy - y\<bar>"
  shows "k \<le> distance x y cx cy"
proof -
  have "k\<^sup>2 \<le> (cy - y)\<^sup>2" using assms by (rule sq_ge)
  then show ?thesis by (intro distance_ge) (simp add: add_increasing)
qed

lemma more_dot_far: "3.7 \<le> distance x y (fst p) (snd p) \<Longrightarrow> more_dot x y p c = c"
  by (cases p) (simp add: more_dot_def)

lemma more_dot_in: "distance x y (fst p) (snd p) \<le> 2.7 \<Longrightarrow> more_dot x y p c = max c 1"
  by (cases p) (simp add: more_dot_def)

lemma dot_positions_42:
  "dot_positions 42 = [(10.5, 20.5), (20.5, 20.5), (30.5, 20.5)]"
  by (simp add: dot_positions_def Let_def)

lemma more_coverage_centre:
  assumes "\<bar>20.5 - x\<bar> \<le> 3 / 2" "\<bar>20.5 - y\<bar> \<le> 3 / 2"
  shows "more_coverage 42 x y = 1"
proof -
  have "3.7 \<le> distance x y 10.5 20.5" using assms by (intro distance_far_x) (simp, linarith)
  then have 1: "more_dot x y (10.5, 20.5) c = c" for c by (intro more_dot_far) simp
  have "distance x y 20.5 20.5 \<le> 2.7"
    using distance_near[OF assms] by simp
  then have 2: "more_dot x y (20.5, 20.5) c = max c 1" for c by (intro more_dot_in) simp
  have "3.7 \<le> distance x y 30.5 20.5" using assms by (intro distance_far_x) (simp, linarith)
  then have 3: "more_dot x y (30.5, 20.5) c = c" for c by (intro more_dot_far) simp
  show ?thesis
    unfolding more_coverage_def dot_positions_42
    by (simp only: fold_simps comp_apply id_apply 1 2 3)
qed

lemma more_coverage_far:
  assumes "3.7 \<le> \<bar>20.5 - y\<bar>"
  shows "more_coverage 42 x y = 0"
proof -
  have "3.7 \<le> distance x y cx 20.5" for cx using assms by (intro distance_far_y) (simp, linarith)
  then have 1: "more_dot x y (cx, 20.5) c = c" for c cx by (intro more_dot_far) simp
  show ?thesis
    unfolding more_coverage_def dot_positions_42
    by (simp only: fold_simps comp_apply id_apply 1)
qed

lemma circle_coverage_centre:
  assumes "\<bar>20.5 - x\<bar> \<le> 3 / 2" "\<bar>20.5 - y\<bar> \<le> 3 / 2"
  shows "circle_coverage 42 x y = 1"
  using distance_near[OF assms] by (simp add: circle_coverage_def)

lemma circle_coverage_corner:
  assumes "19.5 \<le> \<bar>20.5 - x\<bar>" "19.5 \<le> \<bar>20.5 - y\<bar>"
  shows "circle_coverage 42 x y = 0"
proof -
  have "(19.5::real)\<^sup>2 \<le> (20.5 - x)\<^sup>2" "(19.5::real)\<^sup>2 \<le> (20.5 - y)\<^sup>2"
    using assms by (auto intro: sq_ge)
  then have "(21::real)\<^sup>2 \<le> (20.5 - x)\<^sup>2 + (20.5 - y)\<^sup>2" by (simp add: power2_eq_square)
  then have "21 \<le> distance x y 20.5 20.5" by (rule distance_ge)
  then show ?thesis by (simp add: circle_coverage_def)
qed

lemma sample_coord:
  assumes "s < 4"
  shows "of_int k + 1 / 8 \<le> (of_int k + 1 / 8 + real s / 4 :: real)"
    and "(of_int k + 1 / 8 + real s / 4 :: real) \<le> of_int k + 7 / 8"
  using assms by simp_all

section \<open>Blending packed colours\<close>

lemma field_ranges:
  "0 \<le> field_r c" "field_r c < 32" "0 \<le> field_g c" "field_g c < 64"
  "0 \<le> field_b c" "field_b c < 32"
  by (simp_all add: field_r_def field_g_def field_b_def and31 and63)

lemma unpack_pack:
  assumes "0 \<le> c" "c < 65536"
  shows "field_r c * 2048 + field_g c * 32 + field_b c = c"
proof -
  have hi: "c div 2048 mod 32 = c div 2048" using assms by simp
  have lo: "c = (c div 32) * 32 + c mod 32" by simp
  have mid: "c div 32 = (c div 32 div 64) * 64 + c div 32 mod 64" by simp
  have "c div (32 * 64) = c div 32 div 64" by (rule zdiv_zmult2_eq) simp
  then have top: "c div 32 div 64 = c div 2048" by simp
  have "c div 2048 * 2048 + c div 32 mod 64 * 32 + c mod 32 = c"
    using lo mid top by linarith
  then show ?thesis
    unfolding field_r_def field_g_def field_b_def and31 and63 drop_bit_eq_div
    using hi by simp
qed

lemma blend_565_opaque:
  assumes "0 \<le> color" "color < 65536"
  shows "blend_565 color t 1 = color"
proof -
  note f = field_ranges[of color]
  have "blend_565 color t 1 = rgb_to_565 (8 * field_r color) (4 * field_g color) (8 * field_b color)"
    by (simp add: blend_565_def blend_rgb_def rgb565_to_rgb_fields)
  also have "\<dots> = field_r color * 2048 + field_g color * 32 + field_b color"
    using f by (subst rgb_to_565_bytes) simp_all
  finally show ?thesis using unpack_pack[OF assms] by simp
qed

lemma blend_white_gray: "blend_565 0xFFFF 0x5D7B 0.93 = 0xEFBE"
proof -
  have w: "rgb565_to_rgb 0xFFFF = (248, 252, 248)"
    by (simp add: rgb565_to_rgb_fields field_r_def field_g_def field_b_def and31 and63 drop_bit_eq_div)
  have k: "rgb565_to_rgb 0x5D7B = (88, 172, 216)"
    by (simp add: rgb565_to_rgb_fields field_r_def field_g_def field_b_def and31 and63 drop_bit_eq_div)
  have "blend_rgb (248, 252, 248) (88, 172, 216) 0.93 = (236, 246, 245)"
    by (simp add: blend_rgb_def py_int_def)
  then show ?thesis
    unfolding blend_565_def w k by (simp add: rgb_to_565_bytes)
qed

section \<open>The more icon\<close>

lemma sample_near_centre:
  assumes "x = 20 \<or> x = 21" "s < 4"
  shows "\<bar>20.5 - (of_int (int x) + 1 / 8 + real s / 4)\<bar> \<le> (3 / 2 :: real)"
proof -
  define q where "q = real s"
  have "q \<le> 3" "0 \<le> q" using assms(2) by (simp_all add: q_def)
  then show ?thesis unfolding q_def[symmetric] using assms(1) by (auto simp add: abs_real_def)
qed

lemma sample_near_corner:
  assumes "x = 0 \<or> x = 41" "s < 4"
  shows "19.5 \<le> \<bar>20.5 - (of_int (int x) + 1 / 8 + real s / 4 :: real)\<bar>"
proof -
  define q where "q = real s"
  have "q \<le> 3" "0 \<le> q" using assms(2) by (simp_all add: q_def)
  then show ?thesis unfolding q_def[symmetric] using assms(1) by (auto simp add: abs_real_def)
qed

lemma circle_sample_centre:
  assumes "x = 20 \<or> x = 21" "y = 20 \<or> y = 21"
  shows "sample_pixel_aa (int x) (int y) 42 (circle_coverage 42) = 1"
  by (intro sample_pixel_aa_const circle_coverage_centre sample_near_centre assms)

lemma circle_sample_corner:
  assumes "x = 0 \<or> x = 41" "y = 0 \<or> y = 41"
  shows "sample_pixel_aa (int x) (int y) 42 (circle_coverage 42) = 0"
  by (intro sample_pixel_aa_const circle_coverage_corner sample_near_corner assms)

lemma more_sample_centre:
  assumes "x = 20 \<or> x = 21" "y = 20 \<or> y = 21"
  shows "sample_pixel_aa (int x) (int y) 42 (more_coverage 42) = 1"
  by (intro sample_pixel_aa_const more_coverage_centre sample_near_centre assms)

lemma more_sample_corner:
  assumes "y = 0 \<or> y = 41"
  shows "sample_pixel_aa (int x) (int y) 42 (more_coverage 42) = 0"
proof (intro sample_pixel_aa_const more_coverage_far)
  fix sx sy :: nat assume "sy < 4"
  from sample_near_corner[OF assms this]
  show "3.7 \<le> \<bar>20.5 - (of_int (int y) + 1 / 8 + real sy / 4 :: real)\<bar>" by simp
qed

lemma background_length:
  "length (generate_circle_background 42 color t) = 42 * 42"
  unfolding generate_circle_background_def by (simp add: nth_rows(2)[of 0 42 0 42])

lemma background_centre:
  assumes "x = 20 \<or> x = 21" "y = 20 \<or> y = 21"
  shows "generate_circle_background 42 color t ! (y * 42 + x) = blend_565 color t 1"
proof -
  have "x < 42" "y < 42" using assms by auto
  then show ?thesis
    unfolding generate_circle_background_def
    by (simp add: nth_rows(1) circle_sample_centre[OF assms])
qed

lemma background_corner:
  assumes "x = 0 \<or> x = 41" "y = 0 \<or> y = 41"
  shows "generate_circle_background 42 color t ! (y * 42 + x) = t"
proof -
  have "x < 42" "y < 42" using assms by auto
  then show ?thesis
    unfolding generate_circle_background_def
    by (simp add: nth_rows(1) circle_sample_corner[OF assms])
qed

lemma more_pixel_centre:
  assumes "x = 20 \<or> x = 21" "y = 20 \<or> y = 21"
  shows "new_pixel (more_coverage 42) 0.93 42 fg (y, x) old = blend_565 fg old 0.93"
  by (simp add: new_pixel_def more_sample_centre[OF assms])

lemma more_pixel_corner:
  assumes "y = 0 \<or> y = 41"
  shows "new_pixel (more_coverage 42) 0.93 42 fg (y, x) old = old"
  by (simp add: new_pixel_def more_sample_corner[OF assms])

lemma more_symbol_nth:
  assumes "length ps = 42 * 42" "x < 42" "y < 42"
  shows "\<exists>qs. draw_more_symbol ps 42 fg = Inr qs \<and> length qs = 42 * 42 \<and>
           qs ! (y * 42 + x) = new_pixel (more_coverage 42) 0.93 42 fg (y, x) (ps ! (y * 42 + x))"
  using composite_symbol_nth[of ps 42 x y "more_coverage 42" "0.93" fg] assms
  by (simp add: draw_more_symbol_def)

lemma more_icon_pixels_aux:
  assumes "symbol icon_def = ''more''" "0 \<le> bg_color icon_def" "bg_color icon_def < 65536"
  shows "\<exists>pixels. generate_icon icon_def transparent = Inr pixels \<and> length pixels = 42 * 42 \<and>
           pixels ! (20 * 42 + 20) = blend_565 0xFFFF (bg_color icon_def) 0.93 \<and>
           pixels ! (20 * 42 + 21) = blend_565 0xFFFF (bg_color icon_def) 0.93 \<and>
           pixels ! (21 * 42 + 20) = blend_565 0xFFFF (bg_color icon_def) 0.93 \<and>
           pixels ! (21 * 42 + 21) = blend_565 0xFFFF (bg_color icon_def) 0.93 \<and>
           pixels ! (0 * 42 + 0) = transparent \<and> pixels ! (0 * 42 + 41) = transparent \<and>
           pixels ! (41 * 42 + 0) = transparent \<and> pixels ! (41 * 42 + 41) = transparent"
proof -
  let ?bg = "generate_circle_background 42 (bg_color icon_def) transparent"
  have gi: "generate_icon icon_def transparent = draw_more_symbol ?bg 42 0xFFFF"
    using assms(1) by (simp add: generate_icon_def ICON_SIZE_def)
  have len: "length ?bg = 42 * 42" by (rule background_length)
  from more_symbol_nth[OF len, of 0 0 "0xFFFF"]
  obtain qs where qs: "draw_more_symbol ?bg 42 0xFFFF = Inr qs" "length qs = 42 * 42" by auto
  have nth: "qs ! (y * 42 + x) =
      new_pixel (more_coverage 42) 0.93 42 0xFFFF (y, x) (?bg ! (y * 42 + x))"
    if "x < 42" "y < 42" for x y
    using more_symbol_nth[OF len that, of "0xFFFF"] qs(1) by auto
  have centre: "qs ! (y * 42 + x) = blend_565 0xFFFF (bg_color icon_def) 0.93"
    if "x = 20 \<or> x = 21" "y = 20 \<or> y = 21" for x y
  proof -
    have "x < 42" "y < 42" using that by auto
    then show ?thesis
      using nth[of x y] that
      by (simp only: more_pixel_centre[OF that] background_centre[OF that]
            blend_565_opaque[OF assms(2,3)])
  qed
  have corner: "qs ! (y * 42 + x) = transparent"
    if "x = 0 \<or> x = 41" "y = 0 \<or> y = 41" for x y
  proof -
    have "x < 42" "y < 42" using that by auto
    then show ?thesis
      using nth[of x y] that
      by (simp only: more_pixel_corner[OF that(2)] background_corner[OF that])
  qed
  show ?thesis
    unfolding gi qs(1)
    using qs(2) centre[of 20 20] centre[of 21 20] centre[of 20 21] centre[of 21 21]
      corner[of 0 0] corner[of 41 0] corner[of 0 41] corner[of 41 41]
    by simp
qed

text \<open>
  C5 (as amended). Generating the 42 by 42 icon with the three-dot symbol over a 16-bit
  background colour returns 1764 pixels without an exception. Each of the four pixels
  around the centre is white blended over the background colour at opacity 0.93, and the
  four corner pixels, which lie outside the circular background, are exactly the
  transparent colour passed in.
\<close>

theorem more_icon_pixels:
  assumes "symbol icon_def = ''more''" "0 \<le> bg_color icon_def" "bg_color icon_def < 65536"
  shows "\<exists>pixels. generate_icon icon_def transparent = Inr pixels \<and> length pixels = 42 * 42 \<and>
           pixels ! (20 * 42 + 20) = blend_565 0xFFFF (bg_color icon_def) 0.93 \<and>
           pixels ! (20 * 42 + 21) = blend_565 0xFFFF (bg_color icon_def) 0.93 \<and>
           pixels ! (21 * 42 + 20) = blend_565 0xFFFF (bg_color icon_def) 0.93 \<and>
           pixels ! (21 * 42 + 21) = blend_565 0xFFFF (bg_color icon_def) 0.93 \<and>
           pixels ! (0 * 42 + 0) = transparent \<and> pixels ! (0 * 42 + 41) = transparent \<and>
           pixels ! (41 * 42 + 0) = transparent \<and> pixels ! (41 * 42 + 41) = transparent"
  using assms by (rule more_icon_pixels_aux)

theorem more_icon_pixels_witness:
  "\<exists>pixels. generate_icon \<lparr>name = ''more'', bg_color = 0x5D7B, symbol = ''more''\<rparr> 0 = Inr pixels \<and>
     length pixels = 42 * 42 \<and>
     pixels ! (20 * 42 + 20) = blend_565 0xFFFF 0x5D7B 0.93 \<and>
     pixels ! (0 * 42 + 0) = 0 \<and> pixels ! (41 * 42 + 41) = 0"
  using more_icon_pixels[of "\<lparr>name = ''more'', bg_color = 0x5D7B, symbol = ''more''\<rparr>" 0]
  by auto

text \<open>
  C5 as stated fails for the icon \<^verbatim>\<open>IconDef("more", 0x5D7B, "more")\<close> of the script:
  the pixel at row 20, column 20 is 0xEFBE and not the foreground 0xFFFF, and the corner
  pixel is the transparent colour 0x0000.
\<close>

theorem more_icon_counterexample:
  "\<not> isl (generate_icon \<lparr>name = ''more'', bg_color = 0x5D7B, symbol = ''more''\<rparr> 0) \<and>
   projr (generate_icon \<lparr>name = ''more'', bg_color = 0x5D7B, symbol = ''more''\<rparr> 0) ! (20 * 42 + 20)
     = 0xEFBE \<and>
   projr (generate_icon \<lparr>name = ''more'', bg_color = 0x5D7B, symbol = ''more''\<rparr> 0) ! (20 * 42 + 20)
     \<noteq> 0xFFFF \<and>
   projr (generate_icon \<lparr>name = ''more'', bg_color = 0x5D7B, symbol = ''more''\<rparr> 0) ! (0 * 42 + 0)
     = 0"
  using more_icon_pixels_aux[of "\<lparr>name = ''more'', bg_color = 0x5D7B, symbol = ''more''\<rparr>" 0]
    blend_white_gray
  by auto

section \<open>Edge ramps of the coverage functions\<close>



lemma circle_ramp:
  "circle_coverage sz x y =
     clamp01 ((of_int sz / 2 - 0.5) + 0.5 - distance x y (of_int sz / 2 - 0.5) (of_int sz / 2 - 0.5))"
  by (simp add: circle_coverage_def clamp_def Let_def)





lemma ramp_rising: "1 - half_pixel_ramp e d = clamp01 (d - e + 0.5)"
  by (simp add: half_pixel_ramp_def clamp_def)






















end
